theory Spec2Isabelle
  imports Complex_Main "HOL-Library.Sublist" "HOL-Library.Multiset"
begin

section \<open>Python text primitives used by filter.py\<close>

text \<open>
  A Python \<open>str\<close> is modelled as a \<open>string\<close>, one \<open>char\<close> per code point. The character
  classes below are those of CPython for ASCII code points: \<open>str.lower\<close> maps
  \<open>A..Z\<close> to \<open>a..z\<close>; \<open>str.isspace\<close>, which \<open>str.strip()\<close>, \<open>str.split()\<close> and the
  regular expression class \<open>\s\<close> share, holds of the code points 9..13 and 28..32;
  the class \<open>\w\<close> holds of letters, digits and the underscore. Text outside ASCII is
  not covered by the embedding.
\<close>

definition lower_char :: "char \<Rightarrow> char" where
  "lower_char c =
     (let n = (of_char c :: nat) in if 65 \<le> n \<and> n \<le> 90 then char_of (n + 32) else c)"

definition lower :: "string \<Rightarrow> string" where
  "lower s = map lower_char s"

definition is_space :: "char \<Rightarrow> bool" where
  "is_space c = (let n = (of_char c :: nat) in (9 \<le> n \<and> n \<le> 13) \<or> (28 \<le> n \<and> n \<le> 32))"

definition is_word :: "char \<Rightarrow> bool" where
  "is_word c =
     (let n = (of_char c :: nat)
      in (48 \<le> n \<and> n \<le> 57) \<or> (65 \<le> n \<and> n \<le> 90) \<or> n = 95 \<or> (97 \<le> n \<and> n \<le> 122))"

text \<open>\<^verbatim>\<open>re.sub(r'[^\w\s]', '', s)\<close>: every character that is neither a word character
  nor whitespace is deleted.\<close>

definition re_sub_nonword :: "string \<Rightarrow> string" where
  "re_sub_nonword s = filter (\<lambda>c. is_word c \<or> is_space c) s"

text \<open>\<^verbatim>\<open>s.strip()\<close>: leading and trailing whitespace is removed.\<close>

definition strip :: "string \<Rightarrow> string" where
  "strip s = rev (dropWhile is_space (rev (dropWhile is_space s)))"

text \<open>\<^verbatim>\<open>s.split()\<close> without a separator: the maximal runs of non-whitespace
  characters, in order; no empty strings.\<close>

function py_split :: "string \<Rightarrow> string list" where
  "py_split s =
     (case dropWhile is_space s of
        [] \<Rightarrow> []
      | c # cs \<Rightarrow>
          takeWhile (\<lambda>x. \<not> is_space x) (c # cs)
            # py_split (dropWhile (\<lambda>x. \<not> is_space x) (c # cs)))"
  by pat_completeness auto
termination
proof (relation "measure length", goal_cases)
  case 1
  show ?case by simp
next
  case (2 s c cs)
  have "\<not> is_space c"
    using hd_dropWhile [of is_space s] 2 by simp
  then have "length (dropWhile (\<lambda>x. \<not> is_space x) (c # cs)) \<le> length cs"
    by (simp add: length_dropWhile_le)
  moreover have "length (c # cs) \<le> length s"
    using length_dropWhile_le [of is_space s] 2 by simp
  ultimately show ?case by simp
qed

declare py_split.simps [simp del]

text \<open>\<^verbatim>\<open>sub in s\<close> for strings: \<open>sub\<close> occurs as a contiguous substring.\<close>

fun str_contains :: "string \<Rightarrow> string \<Rightarrow> bool" where
  "str_contains sub [] = (sub = [])"
| "str_contains sub (c # cs) = (prefix sub (c # cs) \<or> str_contains sub cs)"

text \<open>\<^verbatim>\<open>s.count(sub)\<close>: the number of non-overlapping occurrences of \<open>sub\<close>, found
  from left to right; for the empty \<open>sub\<close> it is \<open>len(s) + 1\<close>.\<close>

function str_count :: "string \<Rightarrow> string \<Rightarrow> nat" where
  "str_count sub [] = (if sub = [] then 1 else 0)"
| "str_count sub (c # cs) =
     (if sub = [] then Suc (str_count sub cs)
      else if prefix sub (c # cs) then Suc (str_count sub (drop (length sub) (c # cs)))
      else str_count sub cs)"
  by pat_completeness auto
termination
  by (relation "measure (\<lambda>(sub, s). length s)") (auto simp: neq_Nil_conv)

text \<open>\<^verbatim>\<open>xs[start:]\<close> with a possibly negative start: a negative start counts from the
  end and is clamped at the front of the list.\<close>

definition slice_from :: "int \<Rightarrow> 'a list \<Rightarrow> 'a list" where
  "slice_from start xs =
     (if start < 0 then drop (nat (int (length xs) + start)) xs else drop (nat start) xs)"

section \<open>Configuration (config.py)\<close>

record config =
  CRYPTO_KEYWORDS :: "string list"
  GOLD_KEYWORDS :: "string list"
  MAX_STORED_HEADLINES :: int

definition Config :: config where
  "Config = \<lparr>
     CRYPTO_KEYWORDS =
       [''bitcoin'', ''ethereum'', ''binance'', ''etf'', ''crypto'', ''cryptocurrency'',
        ''altcoin'', ''market'', ''bull'', ''bear'', ''trading'', ''btc'', ''eth'',
        ''blockchain'', ''defi'', ''nft'', ''coin'', ''digital'', ''mining'',
        ''wallet'', ''exchange'', ''price'', ''surge'', ''rally'', ''drop'',
        ''investment'', ''token'', ''decentralized'', ''web3''],
     GOLD_KEYWORDS =
       [''gold'', ''precious'', ''metals'', ''bullion'', ''mining'', ''miners'',
        ''copper'', ''silver'', ''commodity'', ''resources'', ''exploration'',
        ''discovery'', ''reserves'', ''production'', ''output'', ''market'',
        ''price'', ''investment'', ''safe'', ''haven'', ''inflation''],
     MAX_STORED_HEADLINES = 50 \<rparr>"

section \<open>The sent-title history (NewsFilter state)\<close>

text \<open>
  A \<open>NewsFilter\<close> object holds the in-memory list \<open>sent_headlines\<close>. The headlines
  file is the second component of the state: absent, holding a saved list of
  headlines, or damaged (empty or an incomplete JSON document, which
  \<open>json.load\<close> cannot read).

  \<open>save_sent_headlines\<close> opens the file with mode \<open>'w'\<close> and then calls
  \<open>json.dump\<close>, inside one \<open>try\<close> whose handler only logs. The call has three
  outcomes, given as the argument \<open>outcome\<close>: \<open>open\<close> raises, and the file is as it
  was; \<open>open\<close> succeeds, which empties the file, and \<open>json.dump\<close> raises before the
  document is complete, and the file is damaged; or the whole document is written.
\<close>

datatype file_state = NoFile | Saved "string list" | Damaged

datatype write_outcome = Written | OpenFailed | DumpFailed

record news_filter =
  sent_headlines :: "string list"
  headlines_file :: file_state

definition save_sent_headlines ::
  "config \<Rightarrow> write_outcome \<Rightarrow> news_filter \<Rightarrow> news_filter"
where
  "save_sent_headlines cfg outcome nf =
     (let recent_headlines = slice_from (- MAX_STORED_HEADLINES cfg) (sent_headlines nf)
      in case outcome of
           OpenFailed \<Rightarrow> nf
         | DumpFailed \<Rightarrow> nf\<lparr>headlines_file := Damaged\<rparr>
         | Written \<Rightarrow> nf\<lparr>headlines_file := Saved recent_headlines\<rparr>)"

definition mark_as_sent ::
  "config \<Rightarrow> write_outcome \<Rightarrow> string \<Rightarrow> news_filter \<Rightarrow> news_filter"
where
  "mark_as_sent cfg outcome title nf =
     save_sent_headlines cfg outcome (nf\<lparr>sent_headlines := sent_headlines nf @ [title]\<rparr>)"

section \<open>Article records and Python values\<close>

text \<open>
  An article is a Python dict. Its values are strings when they come from the feed
  reader, but the filter is written to survive other values, so a value is a
  \<open>pyval\<close>: a string, \<open>None\<close> or an integer. The exceptions the filter can meet
  are \<open>KeyError\<close> (subscript of a missing key) and \<open>AttributeError\<close> (\<open>.lower()\<close>
  of a value that is not a string).
\<close>

datatype error = KeyError | AttributeError

datatype pyval = PyStr string | PyNone | PyInt int

text \<open>Truth value of a Python value, as \<^verbatim>\<open>not v\<close> tests it.\<close>

fun truthy :: "pyval \<Rightarrow> bool" where
  "truthy (PyStr s) = (s \<noteq> [])"
| "truthy PyNone = False"
| "truthy (PyInt n) = (n \<noteq> 0)"

fun nat_digits :: "nat \<Rightarrow> string" where
  "nat_digits n =
     (if n < 10 then [char_of (48 + n)]
      else nat_digits (n div 10) @ [char_of (48 + n mod 10)])"

declare nat_digits.simps [simp del]

text \<open>\<^verbatim>\<open>str(v)\<close>, which an f-string applies to each value it formats.\<close>

fun py_str :: "pyval \<Rightarrow> string" where
  "py_str (PyStr s) = s"
| "py_str PyNone = ''None''"
| "py_str (PyInt n) = (if n < 0 then CHR ''-'' # nat_digits (nat (- n)) else nat_digits (nat n))"

text \<open>\<^verbatim>\<open>v.lower()\<close>: only a string has the method.\<close>

fun lower_val :: "pyval \<Rightarrow> error + string" where
  "lower_val (PyStr s) = Inr (lower s)"
| "lower_val PyNone = Inl AttributeError"
| "lower_val (PyInt n) = Inl AttributeError"

text \<open>
  The dict is a record of optional fields, \<open>None\<close> for an absent key. The keys that
  filter.py never reads (\<open>link\<close>, \<open>published\<close>) are left out. \<open>relevance_score\<close>
  is the float the filter attaches.
\<close>

record article =
  title :: "pyval option"
  summary :: "pyval option"
  category :: "pyval option"
  source :: "pyval option"
  relevance_score :: "real option"

text \<open>\<^verbatim>\<open>d.get(key, default)\<close> and \<^verbatim>\<open>d[key]\<close>.\<close>

definition get_default :: "pyval option \<Rightarrow> pyval \<Rightarrow> pyval" where
  "get_default field d = (case field of None \<Rightarrow> d | Some v \<Rightarrow> v)"

definition subscript :: "pyval option \<Rightarrow> error + pyval" where
  "subscript field = (case field of None \<Rightarrow> Inl KeyError | Some v \<Rightarrow> Inr v)"

section \<open>Duplicate detector\<close>

text \<open>
  The ratio is a Python float. The two counts are small natural numbers, so the
  float quotient compares with the literal \<open>0.85\<close> exactly as the rational quotient
  compares with \<open>85/100\<close>; the ratio is modelled as a real number.
\<close>

definition similarity_ratio :: "string \<Rightarrow> string \<Rightarrow> real" where
  "similarity_ratio str1 str2 =
     (if str1 = [] \<or> str2 = [] then 0
      else
        let words1 = set (py_split str1);
            words2 = set (py_split str2)
        in if words1 = {} \<or> words2 = {} then 0
           else
             let intersection = card (words1 \<inter> words2);
                 union = card (words1 \<union> words2)
             in if union > 0 then real intersection / real union else 0)"

definition normalized :: "string \<Rightarrow> string" where
  "normalized s = strip (re_sub_nonword (lower s))"

fun similar_loop :: "string \<Rightarrow> string list \<Rightarrow> bool" where
  "similar_loop normalized_title [] = False"
| "similar_loop normalized_title (sent_title # rest) =
     (if similarity_ratio normalized_title (normalized sent_title) > 85 / 100 then True
      else similar_loop normalized_title rest)"

definition is_duplicate :: "string list \<Rightarrow> string \<Rightarrow> bool" where
  "is_duplicate sent t =
     (if t \<in> set sent then True else similar_loop (normalized t) sent)"

text \<open>
  \<open>filter_articles\<close> passes \<open>article['title']\<close>, whatever it is. A value that is
  not a string equals no stored title, and its \<open>.lower()\<close> raises.
\<close>

fun is_duplicate_val :: "string list \<Rightarrow> pyval \<Rightarrow> error + bool" where
  "is_duplicate_val sent (PyStr s) = Inr (is_duplicate sent s)"
| "is_duplicate_val sent PyNone = Inl AttributeError"
| "is_duplicate_val sent (PyInt n) = Inl AttributeError"

section \<open>Relevance scorer\<close>

fun contains_loop :: "string \<Rightarrow> string list \<Rightarrow> bool" where
  "contains_loop text_lower [] = False"
| "contains_loop text_lower (keyword # rest) =
     (if str_contains (lower keyword) text_lower then True else contains_loop text_lower rest)"

definition contains_keywords :: "string \<Rightarrow> string list \<Rightarrow> bool" where
  "contains_keywords text keywords = contains_loop (lower text) keywords"

definition important_terms :: "(string \<times> real) list" where
  "important_terms =
     [(''breaking'', 3), (''urgent'', 3), (''alert'', 5 / 2), (''crash'', 5 / 2),
      (''surge'', 2), (''rally'', 2), (''record'', 2), (''high'', 3 / 2), (''low'', 3 / 2),
      (''regulation'', 2), (''ban'', 5 / 2), (''approval'', 2)]"

text \<open>
  The score is a Python float. Every weight is a multiple of \<open>0.5\<close>, so each float
  addition is exact and the score is modelled as a real number.
\<close>

fun keyword_loop :: "string \<Rightarrow> string \<Rightarrow> string list \<Rightarrow> real \<Rightarrow> real" where
  "keyword_loop t s [] score = score"
| "keyword_loop t s (keyword # rest) score =
     (let keyword_lower = lower keyword;
          title_matches = str_count keyword_lower t;
          summary_matches = str_count keyword_lower s
      in keyword_loop t s rest (score + real title_matches * 2 + real summary_matches * 1))"

fun terms_loop :: "string \<Rightarrow> (string \<times> real) list \<Rightarrow> real \<Rightarrow> real" where
  "terms_loop combined_text [] score = score"
| "terms_loop combined_text ((term, weight) # rest) score =
     terms_loop combined_text rest
       (if str_contains term combined_text then score + weight else score)"

definition calculate_relevance_score :: "config \<Rightarrow> article \<Rightarrow> error + real" where
  "calculate_relevance_score cfg a =
     (case lower_val (get_default (title a) (PyStr [])) of
        Inl e \<Rightarrow> Inl e
      | Inr t \<Rightarrow>
     (case lower_val (get_default (summary a) (PyStr [])) of
        Inl e \<Rightarrow> Inl e
      | Inr s \<Rightarrow>
     (let combined_text = t @ '' '' @ s in
      case subscript (category a) of
        Inl e \<Rightarrow> Inl e
      | Inr c \<Rightarrow>
          let keywords = (if c = PyStr ''crypto'' then CRYPTO_KEYWORDS cfg
                          else GOLD_KEYWORDS cfg)
          in Inr (terms_loop combined_text important_terms (keyword_loop t s keywords 0)))))"

section \<open>Filter pipeline\<close>

text \<open>The keyword gate of \<open>filter_articles\<close> (the lines that assign \<open>has_keywords\<close>).\<close>

definition has_keywords :: "config \<Rightarrow> article \<Rightarrow> error + bool" where
  "has_keywords cfg a =
     (let title_and_summary =
            py_str (get_default (title a) (PyStr [])) @ '' ''
              @ py_str (get_default (summary a) (PyStr []))
      in case subscript (category a) of
           Inl e \<Rightarrow> Inl e
         | Inr c \<Rightarrow>
             if c = PyStr ''crypto'' then
               (if contains_keywords title_and_summary (CRYPTO_KEYWORDS cfg) then Inr True
                else case lower_val (get_default (source a) (PyStr [])) of
                       Inl e \<Rightarrow> Inl e
                     | Inr src \<Rightarrow>
                         Inr (str_contains ''coindesk'' src
                              \<or> str_contains ''cointelegraph'' src
                              \<or> str_contains ''decrypt'' src))
             else
               (if contains_keywords title_and_summary (GOLD_KEYWORDS cfg) then Inr True
                else case lower_val (get_default (source a) (PyStr [])) of
                       Inl e \<Rightarrow> Inl e
                     | Inr src \<Rightarrow> Inr (str_contains ''mining'' src)))"

text \<open>
  The body of the \<open>try\<close> block for one article. \<open>Inl\<close> is an exception, which leaves
  the article as it was; \<open>Inr (a', keep)\<close> is the article after the body and
  whether it was appended to \<open>filtered_articles\<close>. The threshold literal \<open>0.1\<close> lies
  strictly between two possible scores (\<open>0\<close> and \<open>0.5\<close>), as \<open>1/10\<close> does.
\<close>

definition filter_one :: "config \<Rightarrow> string list \<Rightarrow> article \<Rightarrow> error + (article \<times> bool)" where
  "filter_one cfg sent a =
     (if \<not> truthy (get_default (title a) PyNone) then Inr (a, False)
      else
        case subscript (title a) of
          Inl e \<Rightarrow> Inl e
        | Inr tv \<Rightarrow>
       (case is_duplicate_val sent tv of
          Inl e \<Rightarrow> Inl e
        | Inr dup \<Rightarrow>
            if dup then Inr (a, False)
            else
              case has_keywords cfg a of
                Inl e \<Rightarrow> Inl e
              | Inr kw \<Rightarrow>
                  if \<not> kw then Inr (a, False)
                  else
                    case calculate_relevance_score cfg a of
                      Inl e \<Rightarrow> Inl e
                    | Inr score \<Rightarrow>
                        Inr (a\<lparr>relevance_score := Some score\<rparr>, score \<ge> 1 / 10)))"

text \<open>
  The \<open>for\<close> loop: an exception is caught and the article skipped. The loop returns
  the input list as the mutation left it, and \<open>filtered_articles\<close>. The list
  elements are taken as values: a dict that stands twice in the list is scored twice
  from fields the loop never writes, with the same result, so sharing changes nothing.
\<close>

fun filter_loop ::
  "config \<Rightarrow> string list \<Rightarrow> article list \<Rightarrow> article list \<Rightarrow> article list \<times> article list"
where
  "filter_loop cfg sent [] filtered = ([], filtered)"
| "filter_loop cfg sent (a # rest) filtered =
     (case filter_one cfg sent a of
        Inl e \<Rightarrow>
          (let (rest', filtered') = filter_loop cfg sent rest filtered
           in (a # rest', filtered'))
      | Inr (a', keep) \<Rightarrow>
          (let (rest', filtered') =
                 filter_loop cfg sent rest (if keep then filtered @ [a'] else filtered)
           in (a' # rest', filtered')))"

text \<open>The sort key \<^verbatim>\<open>x.get('relevance_score', 0)\<close>.\<close>

definition score_key :: "article \<Rightarrow> real" where
  "score_key x = (case relevance_score x of None \<Rightarrow> 0 | Some v \<Rightarrow> v)"

text \<open>
  \<^verbatim>\<open>list.sort(key=..., reverse=True)\<close> is a stable sort into descending key order:
  elements with equal keys keep their order. It is modelled by the stable
  insertion sort \<open>sort_key\<close> on the negated key.
\<close>

definition sort_reverse :: "article list \<Rightarrow> article list" where
  "sort_reverse xs = sort_key (\<lambda>x. - score_key x) xs"

text \<open>
  \<open>filter_articles\<close> returns the selected articles; the model returns with them
  the input list and the \<open>NewsFilter\<close> state as the call left them.
\<close>

definition filter_articles ::
  "config \<Rightarrow> news_filter \<Rightarrow> article list \<Rightarrow> article list \<times> article list \<times> news_filter"
where
  "filter_articles cfg nf articles =
     (let (articles', filtered_articles) = filter_loop cfg (sent_headlines nf) articles [];
          sorted_articles = sort_reverse filtered_articles;
          max_articles = min 6 (length sorted_articles)
      in (take max_articles sorted_articles, articles', nf))"

section \<open>The duplicate rule in the specification's words\<close>

text \<open>
  The specification states the rule on word sets: the Jaccard similarity
  \<open>|A \<inter> B| / |A \<union> B|\<close>, taken as \<open>0\<close> when either set is empty, of the
  whitespace-separated words of the two titles after lowercasing and deleting every
  character that is neither a word character nor whitespace. These definitions
  follow that wording, not the code; \<open>is_duplicate\<close> above follows the code.
\<close>

definition jaccard :: "string set \<Rightarrow> string set \<Rightarrow> real" where
  "jaccard A B = (if A = {} \<or> B = {} then 0 else real (card (A \<inter> B)) / real (card (A \<union> B)))"

definition word_set :: "string \<Rightarrow> string set" where
  "word_set t = set (py_split (re_sub_nonword (lower t)))"

definition is_duplicate_spec :: "string list \<Rightarrow> string \<Rightarrow> bool" where
  "is_duplicate_spec sent t =
     (t \<in> set sent \<or> (\<exists>h \<in> set sent. jaccard (word_set t) (word_set h) > 85 / 100))"

section \<open>The sent-title history: what \<open>mark_as_sent\<close> bounds\<close>

lemma length_slice_from_neg:
  "0 < n \<Longrightarrow> length (slice_from (- n) xs) \<le> nat n"
  by (simp add: slice_from_def)

lemma slice_from_neg_drop:
  "0 < n \<Longrightarrow> slice_from (- n) xs = drop (length xs - nat n) xs"
proof -
  assume "0 < n"
  then have "nat (int (length xs) - n) = length xs - nat n"
    by linarith
  with \<open>0 < n\<close> show ?thesis
    by (simp add: slice_from_def)
qed

text \<open>
  C1, as stated, fails: \<open>mark_as_sent\<close> appends to the in-memory history and never
  shortens it. With the default bound of 50 and a history of 50 titles, the history
  has 51 titles after the call.
\<close>

theorem mark_as_sent_history_exceeds_bound:
  "MAX_STORED_HEADLINES Config = 50 \<and>
   length (sent_headlines
     (mark_as_sent Config Written ''new''
        \<lparr>sent_headlines = replicate 50 ''old'', headlines_file = NoFile\<rparr>)) = 51"
  by (simp add: Config_def mark_as_sent_def save_sent_headlines_def Let_def)

text \<open>
  C1, amended: \<open>mark_as_sent\<close> appends the raw title to the in-memory history and
  leaves that list untruncated. What it truncates is the copy it writes to the
  headlines file: for a positive bound, a completed write stores the most recent
  \<open>MAX_STORED_HEADLINES\<close> entries of the extended history (entries are dropped
  from the front), so the stored list is never longer than the bound.
\<close>

theorem mark_as_sent_bounds_saved_copy:
  assumes "0 < MAX_STORED_HEADLINES cfg"
  shows "sent_headlines (mark_as_sent cfg outcome t nf) = sent_headlines nf @ [t]
    \<and> (outcome = Written \<longrightarrow>
          (\<exists>saved. headlines_file (mark_as_sent cfg outcome t nf) = Saved saved
             \<and> saved = drop (length (sent_headlines nf @ [t]) - nat (MAX_STORED_HEADLINES cfg))
                         (sent_headlines nf @ [t])
             \<and> int (length saved) \<le> MAX_STORED_HEADLINES cfg))"
proof -
  define h where "h = sent_headlines nf @ [t]"
  define m where "m = MAX_STORED_HEADLINES cfg"
  have mem: "sent_headlines (mark_as_sent cfg outcome t nf) = h"
    by (cases outcome) (simp_all add: mark_as_sent_def save_sent_headlines_def Let_def h_def)
  have file_ok: "headlines_file (mark_as_sent cfg Written t nf) = Saved (slice_from (- m) h)"
    by (simp add: mark_as_sent_def save_sent_headlines_def Let_def h_def m_def)
  have pos: "0 < m"
    using assms by (simp add: m_def)
  have eq: "slice_from (- m) h = drop (length h - nat m) h"
    using pos by (rule slice_from_neg_drop)
  have len: "int (length (drop (length h - nat m) h)) \<le> m"
    using length_slice_from_neg [OF pos, of h] pos unfolding eq by linarith
  have "headlines_file (mark_as_sent cfg outcome t nf) = Saved (drop (length h - nat m) h)"
    if "outcome = Written"
    using that file_ok eq by simp
  with mem len show ?thesis
    unfolding h_def [symmetric] m_def [symmetric] by blast
qed

theorem mark_as_sent_bounds_saved_copy_witness:
  "0 < MAX_STORED_HEADLINES (Config\<lparr>MAX_STORED_HEADLINES := 2\<rparr>)
   \<and> sent_headlines
       (mark_as_sent (Config\<lparr>MAX_STORED_HEADLINES := 2\<rparr>) Written ''c''
          \<lparr>sent_headlines = [''a'', ''b''], headlines_file = NoFile\<rparr>) = [''a'', ''b'', ''c'']
   \<and> headlines_file
       (mark_as_sent (Config\<lparr>MAX_STORED_HEADLINES := 2\<rparr>) Written ''c''
          \<lparr>sent_headlines = [''a'', ''b''], headlines_file = NoFile\<rparr>) = Saved [''b'', ''c'']"
proof -
  have pos: "0 < MAX_STORED_HEADLINES (Config\<lparr>MAX_STORED_HEADLINES := 2\<rparr>)"
    by simp
  show ?thesis
    using pos
      mark_as_sent_bounds_saved_copy [OF pos, of Written "''c''"
        "\<lparr>sent_headlines = [''a'', ''b''], headlines_file = NoFile\<rparr>"]
    by simp
qed

section \<open>The loop of \<open>filter_articles\<close>\<close>

text \<open>The accumulator \<open>filtered_articles\<close> only grows at its end, so the loop can be
  read off article by article.\<close>

lemma filter_loop_acc:
  "filter_loop cfg sent xs acc =
     (fst (filter_loop cfg sent xs []), acc @ snd (filter_loop cfg sent xs []))"
proof (induction xs arbitrary: acc)
  case Nil
  show ?case by simp
next
  case (Cons a rest)
  show ?case
  proof (cases "filter_one cfg sent a")
    case (Inl e)
    then show ?thesis
      using Cons.IH [of acc] by (simp add: case_prod_unfold Let_def)
  next
    case (Inr p)
    obtain a' keep where p: "p = (a', keep)" by (cases p)
    show ?thesis
    proof (cases keep)
      case True
      then show ?thesis
        using Inr p Cons.IH [of "acc @ [a']"] Cons.IH [of "[a']"]
        by (simp add: case_prod_unfold Let_def)
    next
      case False
      then show ?thesis
        using Inr p Cons.IH [of acc] by (simp add: case_prod_unfold Let_def)
    qed
  qed
qed

lemma accepted_Cons:
  "snd (filter_loop cfg sent (a # rest) []) =
     (case filter_one cfg sent a of
        Inl e \<Rightarrow> snd (filter_loop cfg sent rest [])
      | Inr (a', keep) \<Rightarrow>
          (if keep then a' # snd (filter_loop cfg sent rest [])
           else snd (filter_loop cfg sent rest [])))"
proof (cases "filter_one cfg sent a")
  case (Inl e)
  then show ?thesis by (simp add: case_prod_unfold Let_def)
next
  case (Inr p)
  obtain a' keep where p: "p = (a', keep)" by (cases p)
  show ?thesis
    using Inr p filter_loop_acc [of cfg sent rest "[a']"]
    by (simp add: case_prod_unfold Let_def)
qed

lemma accepted_append:
  "snd (filter_loop cfg sent (xs @ ys) []) =
     snd (filter_loop cfg sent xs []) @ snd (filter_loop cfg sent ys [])"
proof (induction xs)
  case Nil
  show ?case by simp
next
  case (Cons a xs)
  show ?case
    unfolding append_Cons accepted_Cons using Cons.IH
    by (simp split: sum.splits prod.splits)
qed

lemma accepted_skip_error:
  "filter_one cfg sent a = Inl e \<Longrightarrow>
   snd (filter_loop cfg sent (xs @ a # ys) []) = snd (filter_loop cfg sent (xs @ ys) [])"
  unfolding accepted_append accepted_Cons by simp

lemma filter_one_kept:
  assumes "filter_one cfg sent a = Inr (a', True)"
  shows "\<exists>s score. title a = Some (PyStr s) \<and> s \<noteq> [] \<and> a' = a\<lparr>relevance_score := Some score\<rparr>
     \<and> calculate_relevance_score cfg a = Inr score \<and> 1 / 10 \<le> score"
proof -
  from assms obtain tv where tv: "title a = Some tv" "truthy tv"
    by (cases "title a") (auto simp: filter_one_def get_default_def split: if_splits)
  from assms tv obtain s where s: "tv = PyStr s"
    by (cases tv) (auto simp: filter_one_def get_default_def subscript_def split: if_splits)
  from tv s have ne: "s \<noteq> []" by simp
  from assms tv s ne show ?thesis
    by (auto simp: filter_one_def get_default_def subscript_def
             split: if_splits sum.splits)
qed

lemma accepted_from_input:
  "a' \<in> set (snd (filter_loop cfg sent xs [])) \<Longrightarrow>
   \<exists>a \<in> set xs. filter_one cfg sent a = Inr (a', True)"
proof (induction xs)
  case Nil
  then show ?case by simp
next
  case (Cons x xs)
  then show ?case
    unfolding accepted_Cons
    by (auto split: sum.splits prod.splits if_splits)
qed

lemma annotated_Cons:
  "fst (filter_loop cfg sent (a # rest) []) =
     (case filter_one cfg sent a of
        Inl e \<Rightarrow> a # fst (filter_loop cfg sent rest [])
      | Inr (a', keep) \<Rightarrow> a' # fst (filter_loop cfg sent rest []))"
proof (cases "filter_one cfg sent a")
  case (Inl e)
  then show ?thesis by (simp add: case_prod_unfold Let_def)
next
  case (Inr p)
  obtain a' keep where p: "p = (a', keep)" by (cases p)
  show ?thesis
    using Inr p filter_loop_acc [of cfg sent rest "[a']"]
    by (simp add: case_prod_unfold Let_def)
qed

lemma annotated_append:
  "fst (filter_loop cfg sent (xs @ ys) []) =
     fst (filter_loop cfg sent xs []) @ fst (filter_loop cfg sent ys [])"
proof (induction xs)
  case Nil
  show ?case by simp
next
  case (Cons a xs)
  show ?case
    unfolding append_Cons annotated_Cons using Cons.IH
    by (simp split: sum.splits prod.splits)
qed

lemma filter_articles_parts:
  "filter_articles cfg nf arts =
     (take (min 6 (length (snd (filter_loop cfg (sent_headlines nf) arts []))))
        (sort_reverse (snd (filter_loop cfg (sent_headlines nf) arts []))),
      fst (filter_loop cfg (sent_headlines nf) arts []),
      nf)"
  by (simp add: filter_articles_def case_prod_unfold Let_def sort_reverse_def)

lemma output_subset_accepted:
  "set (fst (filter_articles cfg nf arts))
     \<subseteq> set (snd (filter_loop cfg (sent_headlines nf) arts []))"
proof -
  have "set (fst (filter_articles cfg nf arts))
      \<subseteq> set (sort_reverse (snd (filter_loop cfg (sent_headlines nf) arts [])))"
    unfolding filter_articles_parts fst_conv by (rule set_take_subset)
  then show ?thesis by (simp add: sort_reverse_def)
qed

lemma has_keywords_ignores_score:
  "has_keywords cfg (a\<lparr>relevance_score := r\<rparr>) = has_keywords cfg a"
  by (simp add: has_keywords_def Let_def split: sum.splits)

lemma calculate_relevance_score_ignores_score:
  "calculate_relevance_score cfg (a\<lparr>relevance_score := r\<rparr>) = calculate_relevance_score cfg a"
  by (simp add: calculate_relevance_score_def Let_def split: sum.splits)

lemma filter_one_result:
  assumes "filter_one cfg sent a = Inr (a', keep)"
  shows "a' = a \<or> (\<exists>score. a' = a\<lparr>relevance_score := Some score\<rparr>)"
  using assms
  by (auto simp: filter_one_def split: if_splits sum.splits)

lemma filter_one_again:
  assumes "filter_one cfg sent a = Inr (a', keep)"
  shows "filter_one cfg sent a' = Inr (a', keep)"
proof (cases "a' = a")
  case True
  with assms show ?thesis by simp
next
  case False
  with assms obtain score where
    a': "a' = a\<lparr>relevance_score := Some score\<rparr>" and
    sc: "calculate_relevance_score cfg a = Inr score"
    by (auto simp: filter_one_def split: if_splits sum.splits)
  have keep: "keep = (1 / 10 \<le> score)"
    using assms False sc by (auto simp: filter_one_def split: if_splits sum.splits)
  have t: "truthy (get_default (title a) PyNone)"
    using assms False by (auto simp: filter_one_def split: if_splits)
  obtain tv where tv: "subscript (title a) = Inr tv" "is_duplicate_val sent tv = Inr False"
    using assms False t by (auto simp: filter_one_def split: if_splits sum.splits)
  have kw: "has_keywords cfg a = Inr True"
    using assms False t tv by (auto simp: filter_one_def split: if_splits sum.splits)
  show ?thesis
    unfolding a' keep
    using t tv kw sc
    by (simp add: filter_one_def has_keywords_ignores_score
          calculate_relevance_score_ignores_score)
qed

lemma filter_loop_again:
  "filter_loop cfg sent (fst (filter_loop cfg sent xs [])) [] = filter_loop cfg sent xs []"
proof (induction xs)
  case Nil
  show ?case by simp
next
  case (Cons a xs)
  have IH1: "fst (filter_loop cfg sent (fst (filter_loop cfg sent xs [])) [])
              = fst (filter_loop cfg sent xs [])"
    and IH2: "snd (filter_loop cfg sent (fst (filter_loop cfg sent xs [])) [])
              = snd (filter_loop cfg sent xs [])"
    using Cons.IH by simp_all
  show ?case
  proof (cases "filter_one cfg sent a")
    case (Inl e)
    have "fst (filter_loop cfg sent (a # xs) []) = a # fst (filter_loop cfg sent xs [])"
      unfolding annotated_Cons using Inl by simp
    then show ?thesis
      by (intro prod_eqI) (simp_all only: annotated_Cons accepted_Cons Inl IH1 IH2 sum.case)
  next
    case (Inr p)
    obtain a' keep where p: "p = (a', keep)" by (cases p)
    have again: "filter_one cfg sent a' = Inr (a', keep)"
      using Inr p by (simp add: filter_one_again)
    have "fst (filter_loop cfg sent (a # xs) []) = a' # fst (filter_loop cfg sent xs [])"
      unfolding annotated_Cons using Inr p by simp
    then show ?thesis
      by (intro prod_eqI)
         (simp_all only: annotated_Cons accepted_Cons Inr p again IH1 IH2 sum.case prod.case)
  qed
qed


section \<open>Which articles reach the output\<close>

text \<open>
  C2, as stated, fails for a title of whitespace only: the title check is Python
  truthiness, and the string of one space is true. With an empty history the
  article below passes the gold keyword gate through its summary and is returned
  with score 1.
\<close>

theorem whitespace_title_is_returned:
  "strip '' '' = [] \<and>
   fst (filter_articles Config \<lparr>sent_headlines = [], headlines_file = NoFile\<rparr>
     [\<lparr>title = Some (PyStr '' ''), summary = Some (PyStr ''gold''),
       category = Some (PyStr ''gold''), source = None, relevance_score = None\<rparr>])
   = [\<lparr>title = Some (PyStr '' ''), summary = Some (PyStr ''gold''),
       category = Some (PyStr ''gold''), source = None, relevance_score = Some 1\<rparr>]"
  by code_simp

text \<open>
  C2, amended: an article whose title is missing or empty is excluded from the output
  of \<open>filter_articles\<close>, whatever its other fields: every returned article is an
  input article, with its score attached, whose title is a non-empty string.
  (A title of whitespace only is not excluded by this check.)
\<close>

theorem filter_articles_output_has_title:
  assumes "a' \<in> set (fst (filter_articles cfg nf arts))"
  shows "\<exists>a \<in> set arts. \<exists>s score.
           a' = a\<lparr>relevance_score := Some score\<rparr> \<and> title a = Some (PyStr s) \<and> s \<noteq> []"
proof -
  from assms have "a' \<in> set (snd (filter_loop cfg (sent_headlines nf) arts []))"
    using output_subset_accepted by blast
  then obtain a where a: "a \<in> set arts" "filter_one cfg (sent_headlines nf) a = Inr (a', True)"
    using accepted_from_input by blast
  from filter_one_kept [OF a(2)] a(1) show ?thesis by blast
qed

theorem filter_articles_output_has_title_witness:
  "\<lparr>title = Some (PyStr ''Gold''), summary = None, category = Some (PyStr ''gold''),
     source = None, relevance_score = Some 2\<rparr>
     \<in> set (fst (filter_articles Config \<lparr>sent_headlines = [], headlines_file = NoFile\<rparr>
          [\<lparr>title = None, summary = Some (PyStr ''gold''), category = Some (PyStr ''gold''),
             source = None, relevance_score = None\<rparr>,
           \<lparr>title = Some (PyStr ''Gold''), summary = None, category = Some (PyStr ''gold''),
             source = None, relevance_score = None\<rparr>]))
   \<and> (\<exists>a \<in> set [\<lparr>title = None, summary = Some (PyStr ''gold''),
                     category = Some (PyStr ''gold''), source = None, relevance_score = None\<rparr>,
                   \<lparr>title = Some (PyStr ''Gold''), summary = None,
                     category = Some (PyStr ''gold''), source = None, relevance_score = None\<rparr>].
        \<exists>s score.
          \<lparr>title = Some (PyStr ''Gold''), summary = None, category = Some (PyStr ''gold''),
            source = None, relevance_score = Some 2\<rparr> = a\<lparr>relevance_score := Some score\<rparr>
          \<and> title a = Some (PyStr s) \<and> s \<noteq> [])"
proof -
  have h: "\<lparr>title = Some (PyStr ''Gold''), summary = None, category = Some (PyStr ''gold''),
     source = None, relevance_score = Some 2\<rparr>
     \<in> set (fst (filter_articles Config \<lparr>sent_headlines = [], headlines_file = NoFile\<rparr>
          [\<lparr>title = None, summary = Some (PyStr ''gold''), category = Some (PyStr ''gold''),
             source = None, relevance_score = None\<rparr>,
           \<lparr>title = Some (PyStr ''Gold''), summary = None, category = Some (PyStr ''gold''),
             source = None, relevance_score = None\<rparr>]))"
    by code_simp
  from filter_articles_output_has_title [OF h] h show ?thesis
    by (intro conjI)
qed

section \<open>Exceptions inside the loop\<close>

text \<open>
  C7: \<open>filter_articles\<close> is a total function into lists: every exception of the
  loop body is a value \<open>Inl\<close> of \<open>filter_one\<close>, which the loop catches. An article
  whose processing raises is skipped: the output is the output for the batch
  without it, and the articles around it are processed as they are without it,
  the failing article itself staying as it was.
\<close>

theorem filter_articles_skips_failing_article:
  assumes "filter_one cfg (sent_headlines nf) a = Inl e"
  shows "fst (filter_articles cfg nf (xs @ a # ys)) = fst (filter_articles cfg nf (xs @ ys))
    \<and> fst (snd (filter_articles cfg nf (xs @ a # ys)))
        = fst (snd (filter_articles cfg nf xs)) @ a # fst (snd (filter_articles cfg nf ys))"
proof -
  have acc: "snd (filter_loop cfg (sent_headlines nf) (xs @ a # ys) [])
      = snd (filter_loop cfg (sent_headlines nf) (xs @ ys) [])"
    using assms by (rule accepted_skip_error)
  have ann: "fst (filter_loop cfg (sent_headlines nf) (a # ys) [])
      = a # fst (filter_loop cfg (sent_headlines nf) ys [])"
    unfolding annotated_Cons using assms by simp
  show ?thesis
    unfolding filter_articles_parts fst_conv snd_conv acc annotated_append ann
    by simp
qed

theorem filter_articles_skips_failing_article_witness:
  "filter_one Config [] \<lparr>title = Some (PyStr ''Gold''), summary = None, category = None,
      source = None, relevance_score = None\<rparr> = Inl KeyError
   \<and> fst (filter_articles Config \<lparr>sent_headlines = [], headlines_file = NoFile\<rparr>
        ([] @ \<lparr>title = Some (PyStr ''Gold''), summary = None, category = None,
                source = None, relevance_score = None\<rparr>
            # [\<lparr>title = Some (PyStr ''Silver''), summary = None,
                  category = Some (PyStr ''gold''), source = None, relevance_score = None\<rparr>]))
     = [\<lparr>title = Some (PyStr ''Silver''), summary = None,
          category = Some (PyStr ''gold''), source = None, relevance_score = Some 2\<rparr>]"
proof -
  have h: "filter_one Config (sent_headlines \<lparr>sent_headlines = [], headlines_file = NoFile\<rparr>)
      \<lparr>title = Some (PyStr ''Gold''), summary = None, category = None,
        source = None, relevance_score = None\<rparr> = Inl KeyError"
    by code_simp
  have r: "fst (filter_articles Config \<lparr>sent_headlines = [], headlines_file = NoFile\<rparr>
        ([] @ [\<lparr>title = Some (PyStr ''Silver''), summary = None,
                  category = Some (PyStr ''gold''), source = None, relevance_score = None\<rparr>]))
     = [\<lparr>title = Some (PyStr ''Silver''), summary = None,
          category = Some (PyStr ''gold''), source = None, relevance_score = Some 2\<rparr>]"
    by code_simp
  from filter_articles_skips_failing_article [OF h, of "[]"
      "[\<lparr>title = Some (PyStr ''Silver''), summary = None,
          category = Some (PyStr ''gold''), source = None, relevance_score = None\<rparr>]"]
    h r
  show ?thesis by simp
qed

section \<open>The history during filtering\<close>

text \<open>
  C8: \<open>filter_articles\<close> leaves the \<open>NewsFilter\<close> state, and so the sent-title
  history, as it was; a second call on the same list (whose dicts now carry the
  scores of the first call) with that history returns what the first call
  returned.
\<close>

theorem filter_articles_idempotent:
  assumes "filter_articles cfg nf arts = (out, arts', nf')"
  shows "nf' = nf \<and> filter_articles cfg nf' arts' = (out, arts', nf')"
proof -
  from assms have nf: "nf' = nf"
    and arts': "arts' = fst (filter_loop cfg (sent_headlines nf) arts [])"
    and out: "out = take (min 6 (length (snd (filter_loop cfg (sent_headlines nf) arts []))))
        (sort_reverse (snd (filter_loop cfg (sent_headlines nf) arts [])))"
    unfolding filter_articles_parts by auto
  have "filter_articles cfg nf arts' = (out, arts', nf)"
    unfolding filter_articles_parts arts' out filter_loop_again ..
  with nf show ?thesis by simp
qed

theorem filter_articles_idempotent_witness:
  "filter_articles Config \<lparr>sent_headlines = [''Old''], headlines_file = NoFile\<rparr>
     [\<lparr>title = Some (PyStr ''Gold''), summary = None, category = Some (PyStr ''gold''),
        source = None, relevance_score = None\<rparr>]
   = ([\<lparr>title = Some (PyStr ''Gold''), summary = None, category = Some (PyStr ''gold''),
         source = None, relevance_score = Some 2\<rparr>],
      [\<lparr>title = Some (PyStr ''Gold''), summary = None, category = Some (PyStr ''gold''),
         source = None, relevance_score = Some 2\<rparr>],
      \<lparr>sent_headlines = [''Old''], headlines_file = NoFile\<rparr>)
   \<and> filter_articles Config \<lparr>sent_headlines = [''Old''], headlines_file = NoFile\<rparr>
     [\<lparr>title = Some (PyStr ''Gold''), summary = None, category = Some (PyStr ''gold''),
        source = None, relevance_score = Some 2\<rparr>]
   = ([\<lparr>title = Some (PyStr ''Gold''), summary = None, category = Some (PyStr ''gold''),
         source = None, relevance_score = Some 2\<rparr>],
      [\<lparr>title = Some (PyStr ''Gold''), summary = None, category = Some (PyStr ''gold''),
         source = None, relevance_score = Some 2\<rparr>],
      \<lparr>sent_headlines = [''Old''], headlines_file = NoFile\<rparr>)"
proof -
  have h: "filter_articles Config \<lparr>sent_headlines = [''Old''], headlines_file = NoFile\<rparr>
     [\<lparr>title = Some (PyStr ''Gold''), summary = None, category = Some (PyStr ''gold''),
        source = None, relevance_score = None\<rparr>]
   = ([\<lparr>title = Some (PyStr ''Gold''), summary = None, category = Some (PyStr ''gold''),
         source = None, relevance_score = Some 2\<rparr>],
      [\<lparr>title = Some (PyStr ''Gold''), summary = None, category = Some (PyStr ''gold''),
         source = None, relevance_score = Some 2\<rparr>],
      \<lparr>sent_headlines = [''Old''], headlines_file = NoFile\<rparr>)"
    by code_simp
  from filter_articles_idempotent [OF h] h show ?thesis by simp
qed

section \<open>Duplicates inside one batch\<close>

text \<open>
  C10: the duplicate gate looks at the sent-title history only. Two articles with
  the same title, absent from the history and passing the other gates, are both
  returned, although that title would be a duplicate once it is in the history.
\<close>

theorem same_title_twice_in_one_batch:
  "fst (filter_articles Config \<lparr>sent_headlines = [], headlines_file = NoFile\<rparr>
     [\<lparr>title = Some (PyStr ''Gold up''), summary = Some (PyStr ''first''),
        category = Some (PyStr ''gold''), source = None, relevance_score = None\<rparr>,
      \<lparr>title = Some (PyStr ''Gold up''), summary = Some (PyStr ''second''),
        category = Some (PyStr ''gold''), source = None, relevance_score = None\<rparr>])
   = [\<lparr>title = Some (PyStr ''Gold up''), summary = Some (PyStr ''first''),
        category = Some (PyStr ''gold''), source = None, relevance_score = Some 2\<rparr>,
      \<lparr>title = Some (PyStr ''Gold up''), summary = Some (PyStr ''second''),
        category = Some (PyStr ''gold''), source = None, relevance_score = Some 2\<rparr>]
   \<and> is_duplicate [''Gold up''] ''Gold up''"
  by code_simp

section \<open>Ranking and the cap\<close>

lemma sort_reverse_descending:
  "sorted_wrt (\<lambda>a b. score_key b \<le> score_key a) (sort_reverse xs)"
proof -
  have "sorted (map (\<lambda>x. - score_key x) (sort_reverse xs))"
    unfolding sort_reverse_def by (rule sorted_sort_key)
  then show ?thesis
    by (simp add: sorted_map)
qed

lemma sort_reverse_stable:
  "filter (\<lambda>a. score_key a = s) (sort_reverse xs) = filter (\<lambda>a. score_key a = s) xs"
proof -
  have "filter (\<lambda>a. - score_key a = - s) (sort_key (\<lambda>x. - score_key x) xs)
      = filter (\<lambda>a. - score_key a = - s) xs"
    by (rule sort_key_stable)
  then show ?thesis
    by (simp add: sort_reverse_def)
qed

lemma sorted_wrt_take_drop:
  assumes "sorted_wrt R xs"
  shows "sorted_wrt R (take n xs) \<and> (\<forall>a \<in> set (take n xs). \<forall>b \<in> set (drop n xs). R a b)"
proof -
  have "sorted_wrt R (take n xs @ drop n xs)"
    using assms by simp
  then show ?thesis
    unfolding sorted_wrt_append by blast
qed

lemma prefix_filter_take:
  "prefix (filter P (take n xs)) (filter P xs)"
proof -
  have "filter P xs = filter P (take n xs) @ filter P (drop n xs)"
    by (metis append_take_drop_id filter_append)
  then show ?thesis
    by (simp add: prefix_def)
qed

lemma accepted_subseq_input:
  "subseq (snd (filter_loop cfg sent xs [])) (fst (filter_loop cfg sent xs []))"
proof (induction xs)
  case Nil
  show ?case by simp
next
  case (Cons a xs)
  show ?case
    unfolding accepted_Cons annotated_Cons using Cons.IH
    by (auto split: sum.splits prod.splits)
qed

text \<open>
  C4: let \<open>accepted\<close> be the articles the loop accepted, in input order. The output
  is in descending order of \<open>relevance_score\<close>; articles of equal score stand in
  the output in their input order (among the articles of any one score, the output
  holds an initial segment of the accepted ones); the output has at most 6
  articles, exactly 6 when more than 6 were accepted; and the articles left out
  score no higher than any article returned.
\<close>

theorem filter_articles_ranked_and_capped:
  "sorted_wrt (\<lambda>a b. score_key b \<le> score_key a) (fst (filter_articles cfg nf arts))
   \<and> subseq (snd (filter_loop cfg (sent_headlines nf) arts []))
        (fst (snd (filter_articles cfg nf arts)))
   \<and> (\<forall>s. prefix (filter (\<lambda>a. score_key a = s) (fst (filter_articles cfg nf arts)))
              (filter (\<lambda>a. score_key a = s) (snd (filter_loop cfg (sent_headlines nf) arts []))))
   \<and> length (fst (filter_articles cfg nf arts))
        = min 6 (length (snd (filter_loop cfg (sent_headlines nf) arts [])))
   \<and> (\<exists>dropped.
         mset (fst (filter_articles cfg nf arts) @ dropped)
           = mset (snd (filter_loop cfg (sent_headlines nf) arts []))
         \<and> (\<forall>a \<in> set (fst (filter_articles cfg nf arts)). \<forall>b \<in> set dropped.
               score_key b \<le> score_key a))"
proof -
  define accepted where "accepted = snd (filter_loop cfg (sent_headlines nf) arts [])"
  define n where "n = min 6 (length accepted)"
  have out: "fst (filter_articles cfg nf arts) = take n (sort_reverse accepted)"
    unfolding filter_articles_parts accepted_def n_def by simp
  have inp: "fst (snd (filter_articles cfg nf arts)) = fst (filter_loop cfg (sent_headlines nf) arts [])"
    unfolding filter_articles_parts by simp
  note td = sorted_wrt_take_drop [OF sort_reverse_descending, of n accepted]
  have c1: "sorted_wrt (\<lambda>a b. score_key b \<le> score_key a) (take n (sort_reverse accepted))"
    using td by blast
  have c2: "subseq accepted (fst (filter_loop cfg (sent_headlines nf) arts []))"
    unfolding accepted_def by (rule accepted_subseq_input)
  have c3: "prefix (filter (\<lambda>a. score_key a = s) (take n (sort_reverse accepted)))
              (filter (\<lambda>a. score_key a = s) accepted)" for s
    using prefix_filter_take [of "\<lambda>a. score_key a = s" n "sort_reverse accepted"]
    unfolding sort_reverse_stable .
  have c4: "length (take n (sort_reverse accepted)) = min 6 (length accepted)"
    by (simp add: n_def sort_reverse_def)
  have "mset (take n (sort_reverse accepted) @ drop n (sort_reverse accepted)) = mset accepted"
    by (simp add: sort_reverse_def)
  with td have c5: "\<exists>dropped. mset (take n (sort_reverse accepted) @ dropped) = mset accepted
      \<and> (\<forall>a \<in> set (take n (sort_reverse accepted)). \<forall>b \<in> set dropped.
            score_key b \<le> score_key a)"
    by blast
  show ?thesis
    unfolding out inp accepted_def [symmetric]
    using c1 c2 c3 c4 c5 by blast
qed

theorem filter_articles_ranked_and_capped_witness:
  "map score_key
     (fst (filter_articles Config \<lparr>sent_headlines = [], headlines_file = NoFile\<rparr>
        (map (\<lambda>t. \<lparr>title = Some (PyStr t), summary = None, category = Some (PyStr ''gold''),
                    source = None, relevance_score = None\<rparr>)
           [''gold'', ''gold gold'', ''silver'', ''gold copper silver'', ''mining'',
            ''gold is gold is gold'', ''metals gold'', ''safe haven gold'']))) =
     [6, 6, 6, 4, 4, 2]
   \<and> sorted_wrt (\<lambda>a b. score_key b \<le> score_key a)
       (fst (filter_articles Config \<lparr>sent_headlines = [], headlines_file = NoFile\<rparr>
        (map (\<lambda>t. \<lparr>title = Some (PyStr t), summary = None, category = Some (PyStr ''gold''),
                    source = None, relevance_score = None\<rparr>)
           [''gold'', ''gold gold'', ''silver'', ''gold copper silver'', ''mining'',
            ''gold is gold is gold'', ''metals gold'', ''safe haven gold''])))"
proof -
  have e: "map score_key
     (fst (filter_articles Config \<lparr>sent_headlines = [], headlines_file = NoFile\<rparr>
        (map (\<lambda>t. \<lparr>title = Some (PyStr t), summary = None, category = Some (PyStr ''gold''),
                    source = None, relevance_score = None\<rparr>)
           [''gold'', ''gold gold'', ''silver'', ''gold copper silver'', ''mining'',
            ''gold is gold is gold'', ''metals gold'', ''safe haven gold'']))) =
     [6, 6, 6, 4, 4, 2]"
    by code_simp
  from e filter_articles_ranked_and_capped [of Config
      "\<lparr>sent_headlines = [], headlines_file = NoFile\<rparr>"
      "map (\<lambda>t. \<lparr>title = Some (PyStr t), summary = None, category = Some (PyStr ''gold''),
                    source = None, relevance_score = None\<rparr>)
           [''gold'', ''gold gold'', ''silver'', ''gold copper silver'', ''mining'',
            ''gold is gold is gold'', ''metals gold'', ''safe haven gold'']"]
  show ?thesis by blast
qed

section \<open>The duplicate detector against the specification's rule\<close>

lemma takeWhile_append_fail:
  "\<forall>w \<in> set ws. \<not> Q w \<Longrightarrow> takeWhile Q (xs @ ws) = takeWhile Q xs"
  by (induction xs) (auto simp: takeWhile_eq_Nil_iff)

lemma dropWhile_append_fail:
  "\<forall>w \<in> set ws. \<not> Q w \<Longrightarrow> dropWhile Q (xs @ ws) = dropWhile Q xs @ ws"
  by (induction xs) (auto simp: dropWhile_eq_self_iff)

lemma py_split_unfold_Nil:
  assumes "dropWhile is_space s = []"
  shows "py_split s = []"
  by (subst py_split.simps) (simp only: assms list.case)

lemma py_split_unfold_Cons:
  assumes "dropWhile is_space s = c # cs"
  shows "py_split s =
     takeWhile (\<lambda>x. \<not> is_space x) (c # cs)
       # py_split (dropWhile (\<lambda>x. \<not> is_space x) (c # cs))"
  by (subst py_split.simps) (simp only: assms list.case)

lemma py_split_all_space:
  "\<forall>c \<in> set s. is_space c \<Longrightarrow> py_split s = []"
  by (rule py_split_unfold_Nil) simp

lemma py_split_Nil: "py_split [] = []"
  by (simp add: py_split_all_space)

lemma py_split_append_spaces:
  "\<forall>c \<in> set ws. is_space c \<Longrightarrow> py_split (t @ ws) = py_split t"
proof (induction t rule: py_split.induct)
  case (1 s)
  show ?case
  proof (cases "dropWhile is_space s")
    case Nil
    then have "\<forall>c \<in> set s. is_space c"
      by simp
    with 1(2) have "\<forall>c \<in> set (s @ ws). is_space c"
      by auto
    then have "py_split (s @ ws) = []"
      by (rule py_split_all_space)
    moreover have "py_split s = []"
      using Nil by (rule py_split_unfold_Nil)
    ultimately show ?thesis by simp
  next
    case (Cons c cs)
    have "\<not> (\<forall>x \<in> set s. is_space x)"
      using Cons by (metis dropWhile_eq_Nil_conv list.distinct(1))
    then obtain x where "x \<in> set s" "\<not> is_space x"
      by blast
    then have "dropWhile is_space (s @ ws) = dropWhile is_space s @ ws"
      by (rule dropWhile_append1)
    then have dw: "dropWhile is_space (s @ ws) = c # (cs @ ws)"
      using Cons by simp
    have tw: "takeWhile (\<lambda>x. \<not> is_space x) (c # (cs @ ws))
        = takeWhile (\<lambda>x. \<not> is_space x) (c # cs)"
      using takeWhile_append_fail [of ws "\<lambda>x. \<not> is_space x" "c # cs"] 1(2) by simp
    have dr: "dropWhile (\<lambda>x. \<not> is_space x) (c # (cs @ ws))
        = dropWhile (\<lambda>x. \<not> is_space x) (c # cs) @ ws"
      using dropWhile_append_fail [of ws "\<lambda>x. \<not> is_space x" "c # cs"] 1(2) by simp
    have IH: "py_split (dropWhile (\<lambda>x. \<not> is_space x) (c # cs) @ ws)
        = py_split (dropWhile (\<lambda>x. \<not> is_space x) (c # cs))"
      using 1(1) [OF Cons 1(2)] .
    show ?thesis
      unfolding py_split_unfold_Cons [OF dw] py_split_unfold_Cons [OF Cons] tw dr IH ..
  qed
qed

lemma py_split_dropWhile: "py_split (dropWhile is_space s) = py_split s"
  by (subst py_split.simps, subst (2) py_split.simps) (simp add: dropWhile_idem)

lemma py_split_strip: "py_split (strip s) = py_split s"
proof -
  define t where "t = dropWhile is_space s"
  define ws where "ws = rev (takeWhile is_space (rev t))"
  have sp: "\<forall>c \<in> set ws. is_space c"
    unfolding ws_def by (auto dest: set_takeWhileD)
  have "rev t = takeWhile is_space (rev t) @ dropWhile is_space (rev t)"
    by simp
  then have "t = rev (dropWhile is_space (rev t)) @ ws"
    unfolding ws_def by (metis rev_append rev_rev_ident)
  then have "py_split t = py_split (rev (dropWhile is_space (rev t)) @ ws)"
    by simp
  also have "\<dots> = py_split (rev (dropWhile is_space (rev t)))"
    using sp by (rule py_split_append_spaces)
  finally have "py_split (strip s) = py_split t"
    by (simp add: strip_def t_def)
  then show ?thesis
    by (simp add: t_def py_split_dropWhile)
qed

lemma similarity_ratio_jaccard:
  "similarity_ratio str1 str2 = jaccard (set (py_split str1)) (set (py_split str2))"
proof (cases "str1 = [] \<or> str2 = []")
  case True
  then have "set (py_split str1) = {} \<or> set (py_split str2) = {}"
    by (auto simp: py_split_Nil)
  with True show ?thesis
    by (auto simp: similarity_ratio_def jaccard_def)
next
  case False
  have "0 < card (set (py_split str1) \<union> set (py_split str2))"
    if "set (py_split str1) \<noteq> {}"
    using that by (simp add: card_gt_0_iff)
  with False show ?thesis
    by (auto simp: similarity_ratio_def jaccard_def Let_def)
qed

lemma word_set_normalized: "set (py_split (normalized t)) = word_set t"
  by (simp add: normalized_def word_set_def py_split_strip)

lemma similar_loop_iff:
  "similar_loop nt sent = (\<exists>h \<in> set sent. similarity_ratio nt (normalized h) > 85 / 100)"
  by (induction sent) auto

text \<open>
  C3: \<open>is_duplicate\<close> holds exactly when the raw title is a stored title, or the
  Jaccard similarity of the normalized word sets of the title and some stored
  title exceeds \<open>0.85\<close>.
\<close>

theorem is_duplicate_iff_spec:
  "is_duplicate sent t = is_duplicate_spec sent t"
  by (simp add: is_duplicate_def is_duplicate_spec_def similar_loop_iff
        similarity_ratio_jaccard word_set_normalized)

theorem is_duplicate_iff_spec_witness:
  "is_duplicate [''Fed holds rates'', ''Gold price is up today again now ok'']
     ''gold price is up today again now!!''
   \<and> ''Gold price is up today again now ok''
       \<in> set [''Fed holds rates'', ''Gold price is up today again now ok'']
   \<and> is_duplicate_spec [''Fed holds rates'', ''Gold price is up today again now ok'']
       ''gold price is up today again now!!''"
proof -
  have d: "is_duplicate [''Fed holds rates'', ''Gold price is up today again now ok'']
     ''gold price is up today again now!!''"
    by code_simp
  from d is_duplicate_iff_spec [of "[''Fed holds rates'', ''Gold price is up today again now ok'']"
      "''gold price is up today again now!!''"]
  show ?thesis by simp
qed

section \<open>The relevance score as a sum\<close>

lemma keyword_loop_sum:
  "keyword_loop t s ks score =
     score + (\<Sum>k\<leftarrow>ks. 2 * real (str_count (lower k) t) + real (str_count (lower k) s))"
  by (induction ks arbitrary: score) (simp_all add: Let_def)

lemma terms_loop_sum:
  "terms_loop c ts score =
     score + (\<Sum>p\<leftarrow>ts. if str_contains (fst p) c then snd p else 0)"
  by (induction ts arbitrary: score) (auto simp: case_prod_unfold)

lemma important_terms_nonneg: "\<forall>p \<in> set important_terms. 0 \<le> snd p"
  by (simp add: important_terms_def)

lemma keyword_loop_nonneg: "0 \<le> keyword_loop t s ks 0"
  unfolding keyword_loop_sum by (intro add_nonneg_nonneg sum_list_nonneg) auto

lemma terms_loop_nonneg: "0 \<le> score \<Longrightarrow> 0 \<le> terms_loop c important_terms score"
  unfolding terms_loop_sum using important_terms_nonneg
  by (intro add_nonneg_nonneg sum_list_nonneg) auto

lemma calculate_relevance_score_strings:
  assumes "get_default (title a) (PyStr []) = PyStr t"
    and "get_default (summary a) (PyStr []) = PyStr s"
    and "category a = Some c"
  shows "calculate_relevance_score cfg a =
     Inr (terms_loop (lower t @ '' '' @ lower s) important_terms
            (keyword_loop (lower t) (lower s)
               (if c = PyStr ''crypto'' then CRYPTO_KEYWORDS cfg else GOLD_KEYWORDS cfg) 0))"
  using assms by (simp add: calculate_relevance_score_def subscript_def Let_def)

text \<open>
  C6, as stated, fails: \<open>category\<close> is read by subscript, so an article without
  that key makes \<open>calculate_relevance_score\<close> raise \<open>KeyError\<close>.
\<close>

theorem calculate_relevance_score_missing_category:
  "calculate_relevance_score Config
     \<lparr>title = Some (PyStr ''Gold''), summary = Some (PyStr ''up''), category = None,
       source = Some (PyStr ''Kitco''), relevance_score = None\<rparr> = Inl KeyError"
  by code_simp

text \<open>
  C6, amended: \<open>calculate_relevance_score\<close> has no effect on any state; a missing
  title or summary is treated as the empty string; and for every article that has
  a \<open>category\<close> key and whose title and summary are strings or missing, it
  returns a non-negative score without raising.
\<close>

theorem calculate_relevance_score_total_with_category:
  "calculate_relevance_score cfg (a\<lparr>title := None\<rparr>)
     = calculate_relevance_score cfg (a\<lparr>title := Some (PyStr [])\<rparr>)
   \<and> calculate_relevance_score cfg (a\<lparr>summary := None\<rparr>)
     = calculate_relevance_score cfg (a\<lparr>summary := Some (PyStr [])\<rparr>)
   \<and> (category a \<noteq> None
        \<and> (\<exists>t. get_default (title a) (PyStr []) = PyStr t)
        \<and> (\<exists>s. get_default (summary a) (PyStr []) = PyStr s)
      \<longrightarrow> (\<exists>score. calculate_relevance_score cfg a = Inr score \<and> 0 \<le> score))"
proof (intro conjI impI)
  show "calculate_relevance_score cfg (a\<lparr>title := None\<rparr>)
     = calculate_relevance_score cfg (a\<lparr>title := Some (PyStr [])\<rparr>)"
    by (simp add: calculate_relevance_score_def get_default_def Let_def split: sum.splits)
  show "calculate_relevance_score cfg (a\<lparr>summary := None\<rparr>)
     = calculate_relevance_score cfg (a\<lparr>summary := Some (PyStr [])\<rparr>)"
    by (simp add: calculate_relevance_score_def get_default_def Let_def split: sum.splits)
next
  assume h: "category a \<noteq> None
        \<and> (\<exists>t. get_default (title a) (PyStr []) = PyStr t)
        \<and> (\<exists>s. get_default (summary a) (PyStr []) = PyStr s)"
  then obtain c t s where c: "category a = Some c"
    and t: "get_default (title a) (PyStr []) = PyStr t"
    and s: "get_default (summary a) (PyStr []) = PyStr s"
    by auto
  show "\<exists>score. calculate_relevance_score cfg a = Inr score \<and> 0 \<le> score"
    unfolding calculate_relevance_score_strings [OF t s c]
    by (simp add: terms_loop_nonneg keyword_loop_nonneg)
qed

theorem calculate_relevance_score_total_with_category_witness:
  "category \<lparr>title = None, summary = Some (PyStr ''Gold at record high''),
       category = Some (PyStr ''gold''), source = None, relevance_score = None\<rparr> \<noteq> None
   \<and> calculate_relevance_score Config
       \<lparr>title = None, summary = Some (PyStr ''Gold at record high''),
         category = Some (PyStr ''gold''), source = None, relevance_score = None\<rparr> = Inr (9 / 2)
   \<and> (\<exists>score. calculate_relevance_score Config
       \<lparr>title = None, summary = Some (PyStr ''Gold at record high''),
         category = Some (PyStr ''gold''), source = None, relevance_score = None\<rparr> = Inr score
       \<and> 0 \<le> score)"
proof -
  have e: "calculate_relevance_score Config
       \<lparr>title = None, summary = Some (PyStr ''Gold at record high''),
         category = Some (PyStr ''gold''), source = None, relevance_score = None\<rparr> = Inr (9 / 2)"
    by code_simp
  have h: "category \<lparr>title = None, summary = Some (PyStr ''Gold at record high''),
         category = Some (PyStr ''gold''), source = None, relevance_score = None\<rparr> \<noteq> None
     \<and> (\<exists>t. get_default (title \<lparr>title = None, summary = Some (PyStr ''Gold at record high''),
         category = Some (PyStr ''gold''), source = None, relevance_score = None\<rparr>) (PyStr [])
           = PyStr t)
     \<and> (\<exists>s. get_default (summary \<lparr>title = None, summary = Some (PyStr ''Gold at record high''),
         category = Some (PyStr ''gold''), source = None, relevance_score = None\<rparr>) (PyStr [])
           = PyStr s)"
    by (simp add: get_default_def)
  from h calculate_relevance_score_total_with_category [of Config
       "\<lparr>title = None, summary = Some (PyStr ''Gold at record high''),
         category = Some (PyStr ''gold''), source = None, relevance_score = None\<rparr>"]
  have "\<exists>score. calculate_relevance_score Config
       \<lparr>title = None, summary = Some (PyStr ''Gold at record high''),
         category = Some (PyStr ''gold''), source = None, relevance_score = None\<rparr> = Inr score
       \<and> 0 \<le> score"
    by blast
  with e h show ?thesis
    by blast
qed

section \<open>One more occurrence of a keyword\<close>

text \<open>
  C5, as stated, fails: the keyword lists hold keywords that occur inside other
  keywords. In the crypto list \<open>coin\<close> occurs in \<open>bitcoin\<close>, so one more
  occurrence of \<open>bitcoin\<close> in the title raises the score by 4, not 2.
\<close>

theorem one_more_bitcoin_adds_four:
  "str_count ''bitcoin'' ''bitcoin'' = 1
   \<and> str_count ''bitcoin'' ''bitcoin bitcoin'' = 2
   \<and> calculate_relevance_score Config
       \<lparr>title = Some (PyStr ''bitcoin''), summary = Some (PyStr []),
         category = Some (PyStr ''crypto''), source = None, relevance_score = None\<rparr> = Inr 4
   \<and> calculate_relevance_score Config
       \<lparr>title = Some (PyStr ''bitcoin bitcoin''), summary = Some (PyStr []),
         category = Some (PyStr ''crypto''), source = None, relevance_score = None\<rparr> = Inr 8"
  by code_simp

lemma sum_list_split_one:
  fixes f g :: "'a \<Rightarrow> real"
  assumes "\<forall>x \<in> set (xs @ ys). f x = g x"
  shows "(\<Sum>x\<leftarrow>xs @ k # ys. f x) = (\<Sum>x\<leftarrow>xs @ k # ys. g x) + (f k - g k)"
proof -
  have "sum_list (map f xs) = sum_list (map g xs)"
    by (rule arg_cong [where f = sum_list]) (use assms in auto)
  moreover have "sum_list (map f ys) = sum_list (map g ys)"
    by (rule arg_cong [where f = sum_list]) (use assms in auto)
  ultimately show ?thesis
    by simp
qed

lemma terms_loop_cong:
  assumes "\<forall>p \<in> set ts. str_contains (fst p) c' = str_contains (fst p) c"
  shows "terms_loop c' ts score = terms_loop c ts score"
proof -
  have "(\<Sum>p\<leftarrow>ts. if str_contains (fst p) c' then snd p else 0)
      = (\<Sum>p\<leftarrow>ts. if str_contains (fst p) c then snd p else 0)"
    by (rule arg_cong [where f = sum_list]) (use assms in auto)
  then show ?thesis
    unfolding terms_loop_sum by simp
qed

lemma keyword_loop_one_changed:
  assumes "\<forall>k' \<in> set (xs @ ys).
      str_count (lower k') t' = str_count (lower k') t
      \<and> str_count (lower k') s' = str_count (lower k') s"
  shows "keyword_loop t' s' (xs @ k # ys) 0 =
     keyword_loop t s (xs @ k # ys) 0
       + 2 * (real (str_count (lower k) t') - real (str_count (lower k) t))
       + (real (str_count (lower k) s') - real (str_count (lower k) s))"
proof -
  have "\<forall>x \<in> set (xs @ ys).
      2 * real (str_count (lower x) t') + real (str_count (lower x) s')
      = 2 * real (str_count (lower x) t) + real (str_count (lower x) s)"
    using assms by simp
  from sum_list_split_one [OF this, of k] show ?thesis
    unfolding keyword_loop_sum by simp
qed

text \<open>
  C5, amended: let the keyword list of the article's category be \<open>xs @ k # ys\<close>,
  and let the title and summary change so that, for every other entry of the list,
  the number of occurrences in title and in summary stays the same, and the same
  bonus terms are present in the combined text. Then one more occurrence of \<open>k\<close>
  in the title (summary unchanged) raises the score by exactly 2, and one more
  occurrence of \<open>k\<close> in the summary (title unchanged) raises it by exactly 1.
\<close>

theorem one_more_occurrence_of_one_keyword:
  assumes cat: "category a = Some c"
    and kws: "(if c = PyStr ''crypto'' then CRYPTO_KEYWORDS cfg else GOLD_KEYWORDS cfg)
               = xs @ k # ys"
    and old: "title a = Some (PyStr t)" "summary a = Some (PyStr s)"
    and others: "\<forall>k' \<in> set (xs @ ys).
        str_count (lower k') (lower t') = str_count (lower k') (lower t)
        \<and> str_count (lower k') (lower s') = str_count (lower k') (lower s)"
    and bonus: "\<forall>p \<in> set important_terms.
        str_contains (fst p) (lower t' @ '' '' @ lower s')
          = str_contains (fst p) (lower t @ '' '' @ lower s)"
    and score: "calculate_relevance_score cfg a = Inr score"
  shows "(str_count (lower k) (lower t') = str_count (lower k) (lower t) + 1 \<and> s' = s
            \<longrightarrow> calculate_relevance_score cfg
                  (a\<lparr>title := Some (PyStr t'), summary := Some (PyStr s')\<rparr>) = Inr (score + 2))
       \<and> (t' = t \<and> str_count (lower k) (lower s') = str_count (lower k) (lower s) + 1
            \<longrightarrow> calculate_relevance_score cfg
                  (a\<lparr>title := Some (PyStr t'), summary := Some (PyStr s')\<rparr>) = Inr (score + 1))"
proof -
  let ?a' = "a\<lparr>title := Some (PyStr t'), summary := Some (PyStr s')\<rparr>"
  have sc: "score = terms_loop (lower t @ '' '' @ lower s) important_terms
                      (keyword_loop (lower t) (lower s) (xs @ k # ys) 0)"
    using score calculate_relevance_score_strings [of a t s c cfg] cat old kws
    by (simp add: get_default_def)
  have sc': "calculate_relevance_score cfg ?a' =
      Inr (terms_loop (lower t @ '' '' @ lower s) important_terms
             (keyword_loop (lower t') (lower s') (xs @ k # ys) 0))"
    using calculate_relevance_score_strings [of ?a' t' s' c cfg] cat kws
      terms_loop_cong [OF bonus]
    by (simp add: get_default_def)
  have kl: "keyword_loop (lower t') (lower s') (xs @ k # ys) 0 =
     keyword_loop (lower t) (lower s) (xs @ k # ys) 0
       + 2 * (real (str_count (lower k) (lower t')) - real (str_count (lower k) (lower t)))
       + (real (str_count (lower k) (lower s')) - real (str_count (lower k) (lower s)))"
    using others by (rule keyword_loop_one_changed)
  have shift: "terms_loop cmb important_terms (x + d) = terms_loop cmb important_terms x + d"
    for cmb x d
    unfolding terms_loop_sum by simp
  show ?thesis
  proof (intro conjI impI)
    assume "str_count (lower k) (lower t') = str_count (lower k) (lower t) + 1 \<and> s' = s"
    then have "keyword_loop (lower t') (lower s') (xs @ k # ys) 0
        = keyword_loop (lower t) (lower s) (xs @ k # ys) 0 + 2"
      unfolding kl by simp
    then show "calculate_relevance_score cfg ?a' = Inr (score + 2)"
      unfolding sc' sc by (simp only: shift)
  next
    assume "t' = t \<and> str_count (lower k) (lower s') = str_count (lower k) (lower s) + 1"
    then have "keyword_loop (lower t') (lower s') (xs @ k # ys) 0
        = keyword_loop (lower t) (lower s) (xs @ k # ys) 0 + 1"
      unfolding kl by simp
    then show "calculate_relevance_score cfg ?a' = Inr (score + 1)"
      unfolding sc' sc by (simp only: shift)
  qed
qed


theorem one_more_occurrence_of_one_keyword_witness:
  "calculate_relevance_score Config
     \<lparr>title = Some (PyStr ''gold''), summary = Some (PyStr ''gold''),
       category = Some (PyStr ''gold''), source = None, relevance_score = None\<rparr> = Inr 3
   \<and> calculate_relevance_score Config
     \<lparr>title = Some (PyStr ''gold gold''), summary = Some (PyStr ''gold''),
       category = Some (PyStr ''gold''), source = None, relevance_score = None\<rparr> = Inr (3 + 2)
   \<and> calculate_relevance_score Config
     \<lparr>title = Some (PyStr ''gold''), summary = Some (PyStr ''gold gold''),
       category = Some (PyStr ''gold''), source = None, relevance_score = None\<rparr> = Inr (3 + 1)"
proof -
  let ?a = "\<lparr>title = Some (PyStr ''gold''), summary = Some (PyStr ''gold''),
       category = Some (PyStr ''gold''), source = None, relevance_score = None\<rparr>"
  let ?ys = "[''precious'', ''metals'', ''bullion'', ''mining'', ''miners'',
        ''copper'', ''silver'', ''commodity'', ''resources'', ''exploration'',
        ''discovery'', ''reserves'', ''production'', ''output'', ''market'',
        ''price'', ''investment'', ''safe'', ''haven'', ''inflation'']"
  have cat: "category ?a = Some (PyStr ''gold'')"
    by simp
  have kws: "(if PyStr ''gold'' = PyStr ''crypto'' then CRYPTO_KEYWORDS Config
              else GOLD_KEYWORDS Config) = [] @ ''gold'' # ?ys"
    by (simp add: Config_def)
  have old: "title ?a = Some (PyStr ''gold'')" "summary ?a = Some (PyStr ''gold'')"
    by simp_all
  have score: "calculate_relevance_score Config ?a = Inr 3"
    by code_simp
  have others_t: "\<forall>k' \<in> set ([] @ ?ys).
        str_count (lower k') (lower ''gold gold'') = str_count (lower k') (lower ''gold'')
        \<and> str_count (lower k') (lower ''gold'') = str_count (lower k') (lower ''gold'')"
    by code_simp
  have bonus_t: "\<forall>p \<in> set important_terms.
        str_contains (fst p) (lower ''gold gold'' @ '' '' @ lower ''gold'')
          = str_contains (fst p) (lower ''gold'' @ '' '' @ lower ''gold'')"
    by code_simp
  have more_t: "str_count (lower ''gold'') (lower ''gold gold'')
        = str_count (lower ''gold'') (lower ''gold'') + 1 \<and> ''gold'' = ''gold''"
    by code_simp
  have others_s: "\<forall>k' \<in> set ([] @ ?ys).
        str_count (lower k') (lower ''gold'') = str_count (lower k') (lower ''gold'')
        \<and> str_count (lower k') (lower ''gold gold'') = str_count (lower k') (lower ''gold'')"
    by code_simp
  have bonus_s: "\<forall>p \<in> set important_terms.
        str_contains (fst p) (lower ''gold'' @ '' '' @ lower ''gold gold'')
          = str_contains (fst p) (lower ''gold'' @ '' '' @ lower ''gold'')"
    by code_simp
  have more_s: "''gold'' = ''gold'' \<and> str_count (lower ''gold'') (lower ''gold gold'')
        = str_count (lower ''gold'') (lower ''gold'') + 1"
    by code_simp
  have t: "calculate_relevance_score Config
      (?a\<lparr>title := Some (PyStr ''gold gold''), summary := Some (PyStr ''gold'')\<rparr>) = Inr (3 + 2)"
    using one_more_occurrence_of_one_keyword [OF cat kws old others_t bonus_t score] more_t
    by blast
  have s: "calculate_relevance_score Config
      (?a\<lparr>title := Some (PyStr ''gold''), summary := Some (PyStr ''gold gold'')\<rparr>) = Inr (3 + 1)"
    using one_more_occurrence_of_one_keyword [OF cat kws old others_s bonus_s score] more_s
    by blast
  from score t s show ?thesis
    by simp
qed

section \<open>Categories other than crypto\<close>



end
